theory Spec2Isabelle
  imports Main
begin

section \<open>Python values used by logtweaks\<close>

text \<open>
  A Python \<^verbatim>\<open>str\<close> is a sequence of Unicode code points, so a string is a list of
  code points here (a HOL \<open>char\<close> is a byte and could not hold U+2028).
  \<open>str_of\<close> reads an ASCII literal as such a string.
\<close>

type_synonym codepoint = nat
type_synonym pystr = "codepoint list"

definition str_of :: "string \<Rightarrow> pystr" where
  "str_of s = map of_char s"

text \<open>
  \<^verbatim>\<open>string * amount\<close>: the string repeated; a count of zero or less gives the empty string.
\<close>

definition str_mul :: "pystr \<Rightarrow> int \<Rightarrow> pystr" where
  "str_mul s n = concat (replicate (nat n) s)"

text \<open>
  The exceptions of the model: \<open>AttributeError\<close> for a method looked up on an object that
  does not have it, and \<open>Propagated\<close> for an exception raised inside library code that the
  repository calls and does not catch (named by the library).
\<close>

datatype error = AttributeError | Propagated string

text \<open>
  The line boundaries of \<^verbatim>\<open>str.splitlines\<close>: LF, VT, FF, CR, FS, GS, RS, NEL, LS and PS;
  CR immediately followed by LF is one boundary.
\<close>

definition linebreak :: "codepoint \<Rightarrow> bool" where
  "linebreak c = (c \<in> {0x0A, 0x0B, 0x0C, 0x0D, 0x1C, 0x1D, 0x1E, 0x85, 0x2028, 0x2029})"

text \<open>
  \<^verbatim>\<open>str.splitlines(keepends)\<close>, as the interpreter's loop has it: scan to the next
  boundary, step over it (two code points for CR LF), emit the slice with or without
  the boundary, continue after it. The empty string has no lines, and a string that
  ends in a boundary has no empty last line.
\<close>

function splitlines :: "bool \<Rightarrow> pystr \<Rightarrow> pystr list" where
  "splitlines keepends [] = []"
| "splitlines keepends (x # xs) =
     (let body = takeWhile (\<lambda>c. \<not> linebreak c) (x # xs);
          rest = dropWhile (\<lambda>c. \<not> linebreak c) (x # xs)
      in case rest of
           [] \<Rightarrow> [body]
         | c # r \<Rightarrow>
             (if c = 0x0D \<and> (case r of [] \<Rightarrow> False | c' # _ \<Rightarrow> c' = 0x0A)
              then (if keepends then body @ [0x0D, 0x0A] else body) # splitlines keepends (tl r)
              else (if keepends then body @ [c] else body) # splitlines keepends r))"
  by pat_completeness auto
termination
proof (relation "measure (\<lambda>(k, s). length s)", goal_cases)
  case 1
  then show ?case by simp
next
  case (2 keepends x xs body rest c r)
  have le: "length (dropWhile (\<lambda>c. \<not> linebreak c) (x # xs)) \<le> length (x # xs)"
    by (rule length_dropWhile_le)
  from 2 have eq: "dropWhile (\<lambda>c. \<not> linebreak c) (x # xs) = c # r" by simp
  have "length r < length (x # xs)" using le unfolding eq by simp
  then show ?case by (cases r) auto
next
  case (3 keepends x xs body rest c r)
  have le: "length (dropWhile (\<lambda>c. \<not> linebreak c) (x # xs)) \<le> length (x # xs)"
    by (rule length_dropWhile_le)
  from 3 have eq: "dropWhile (\<lambda>c. \<not> linebreak c) (x # xs) = c # r" by simp
  have "length r < length (x # xs)" using le unfolding eq by simp
  then show ?case by simp
qed

section \<open>PrettyStreamHandler\<close>

text \<open>
  The level numbers of the \<^verbatim>\<open>logging\<close> module.
\<close>

definition logging_DEBUG :: int where "logging_DEBUG = 10"
definition logging_INFO :: int where "logging_INFO = 20"
definition logging_WARNING :: int where "logging_WARNING = 30"
definition logging_ERROR :: int where "logging_ERROR = 40"
definition logging_CRITICAL :: int where "logging_CRITICAL = 50"

text \<open>
  The class attributes \<^verbatim>\<open>COLOURS\<close> (a dict from level numbers to ANSI codes; 27 is ESC)
  and \<^verbatim>\<open>COLOUR_END\<close>.
\<close>

definition COLOURS :: "int \<rightharpoonup> pystr" where
  "COLOURS =
     [logging_DEBUG \<mapsto> 27 # str_of ''[36m'',
      logging_WARNING \<mapsto> 27 # str_of ''[33m'',
      logging_ERROR \<mapsto> 27 # str_of ''[31m'',
      logging_CRITICAL \<mapsto> 27 # str_of ''[31;7m'']"

definition COLOUR_END :: pystr where
  "COLOUR_END = 27 # str_of ''[0m''"

text \<open>
  \<^verbatim>\<open>d.get(key, default)\<close>.
\<close>

definition dict_get :: "('k \<rightharpoonup> 'v) \<Rightarrow> 'k \<Rightarrow> 'v \<Rightarrow> 'v" where
  "dict_get d k dflt = (case d k of None \<Rightarrow> dflt | Some v \<Rightarrow> v)"

text \<open>
  An output stream, as far as the handler looks at it: whether it has an
  \<^verbatim>\<open>isatty\<close> method, and what calling it does.
\<close>

datatype isatty_method = Missing | Returns bool | Raises string

record pystream =
  isatty :: isatty_method

text \<open>
  A log record: the handler reads \<^verbatim>\<open>levelno\<close> only; every other attribute lives in
  the record's extension.
\<close>

record LogRecord =
  levelno :: int

record PrettyStreamHandler =
  stream :: pystream
  colour :: bool

text \<open>
  \<^verbatim>\<open>__init__(self, stream=None, colour=None)\<close>. The base class stores the stream,
  \<^verbatim>\<open>sys.stderr\<close> when none is given (the first argument here). With no colour
  override the flag is the result of \<^verbatim>\<open>self.stream.isatty()\<close>; the attribute
  lookup and the call are not guarded, so either can raise.
\<close>

definition StreamHandler_stream :: "pystream \<Rightarrow> pystream option \<Rightarrow> pystream" where
  "StreamHandler_stream sys_stderr stream_arg =
     (case stream_arg of None \<Rightarrow> sys_stderr | Some s \<Rightarrow> s)"

definition PrettyStreamHandler_init ::
  "pystream \<Rightarrow> pystream option \<Rightarrow> bool option \<Rightarrow> error + PrettyStreamHandler" where
  "PrettyStreamHandler_init sys_stderr stream_arg colour_arg =
     (let s = StreamHandler_stream sys_stderr stream_arg
      in case colour_arg of
           None \<Rightarrow>
             (case isatty s of
                Missing \<Rightarrow> Inl AttributeError
              | Raises e \<Rightarrow> Inl (Propagated e)
              | Returns b \<Rightarrow> Inr \<lparr>stream = s, colour = b\<rparr>)
         | Some c \<Rightarrow> Inr \<lparr>stream = s, colour = c\<rparr>)"

text \<open>
  \<^verbatim>\<open>format(self, record)\<close>. The first argument is the base class's
  \<^verbatim>\<open>format\<close>, which renders the record with the handler's formatter and may raise;
  its exception is not caught.
\<close>

definition PrettyStreamHandler_format ::
  "('r LogRecord_scheme \<Rightarrow> error + pystr) \<Rightarrow> PrettyStreamHandler \<Rightarrow> 'r LogRecord_scheme
     \<Rightarrow> error + pystr" where
  "PrettyStreamHandler_format base_format self record =
     (case base_format record of
        Inl e \<Rightarrow> Inl e
      | Inr msg \<Rightarrow>
          (if colour self
           then Inr (dict_get COLOURS (levelno record) [] @ msg @ COLOUR_END)
           else Inr msg))"

section \<open>Indentation\<close>

text \<open>
  \<^verbatim>\<open>indent(data, amount=1, string='  ')\<close>.
\<close>

definition indent_default_string :: pystr where
  "indent_default_string = str_of ''  ''"

definition indent :: "pystr \<Rightarrow> int \<Rightarrow> pystr \<Rightarrow> pystr" where
  "indent data amount string =
     concat (map (\<lambda>line. str_mul string amount @ line) (splitlines True data))"

text \<open>
  The adapter: the wrapped logger and the counter \<^verbatim>\<open>_indent_level\<close>, a Python int.
\<close>

record 'l IndentingLoggerAdapter =
  logger :: 'l
  indent_level :: int

definition IndentingLoggerAdapter_init :: "'l \<Rightarrow> 'l IndentingLoggerAdapter" where
  "IndentingLoggerAdapter_init log = \<lparr>logger = log, indent_level = 0\<rparr>"

definition IndentingLoggerAdapter_indent ::
  "'l IndentingLoggerAdapter \<Rightarrow> 'l IndentingLoggerAdapter" where
  "IndentingLoggerAdapter_indent self = self\<lparr>indent_level := indent_level self + 1\<rparr>"

definition IndentingLoggerAdapter_outdent ::
  "'l IndentingLoggerAdapter \<Rightarrow> 'l IndentingLoggerAdapter" where
  "IndentingLoggerAdapter_outdent self = self\<lparr>indent_level := max 0 (indent_level self - 1)\<rparr>"

definition IndentingLoggerAdapter_process ::
  "'l IndentingLoggerAdapter \<Rightarrow> pystr \<Rightarrow> 'k \<Rightarrow> pystr \<times> 'k" where
  "IndentingLoggerAdapter_process self msg kwargs =
     (indent msg (indent_level self) indent_default_string, kwargs)"

text \<open>
  The adapter's logging methods are those of \<^verbatim>\<open>logging.LoggerAdapter\<close>, which the class
  extends without overriding them: each runs
  \<^verbatim>\<open>msg, kwargs = self.process(msg, kwargs)\<close> and hands the level it was called with,
  the new message and the new options to the wrapped logger. \<open>log_call\<close> is that call.
\<close>

record 'k log_call =
  call_level :: int
  call_msg :: pystr
  call_kwargs :: 'k

definition IndentingLoggerAdapter_log ::
  "'l IndentingLoggerAdapter \<Rightarrow> int \<Rightarrow> pystr \<Rightarrow> 'k \<Rightarrow> 'k log_call" where
  "IndentingLoggerAdapter_log self level msg kwargs =
     (case IndentingLoggerAdapter_process self msg kwargs of
        (msg', kwargs') \<Rightarrow> \<lparr>call_level = level, call_msg = msg', call_kwargs = kwargs'\<rparr>)"

text \<open>
  A call of one of the adapter's three methods, and its effect on the adapter:
  \<^verbatim>\<open>process\<close> assigns no attribute.
\<close>

datatype 'k adapter_call = Indent | Outdent | Process pystr 'k

fun adapter_step :: "'l IndentingLoggerAdapter \<Rightarrow> 'k adapter_call \<Rightarrow> 'l IndentingLoggerAdapter" where
  "adapter_step self Indent = IndentingLoggerAdapter_indent self"
| "adapter_step self Outdent = IndentingLoggerAdapter_outdent self"
| "adapter_step self (Process msg kwargs) = self"

definition adapter_run ::
  "'l IndentingLoggerAdapter \<Rightarrow> 'k adapter_call list \<Rightarrow> 'l IndentingLoggerAdapter" where
  "adapter_run self calls = foldl adapter_step self calls"

text \<open>
  The indentation as the specification words it: going through the message one code
  point at a time, the prefix is put in front of the first code point of every line.
  A line starts at the start of the message and after every line boundary that is
  followed by more text; the flag says whether the next code point starts a line.
\<close>

fun starts_with_LF :: "pystr \<Rightarrow> bool" where
  "starts_with_LF [] = False"
| "starts_with_LF (c # cs) = (c = 0x0A)"

fun prefix_every_line :: "pystr \<Rightarrow> bool \<Rightarrow> pystr \<Rightarrow> pystr" where
  "prefix_every_line p at_start [] = []"
| "prefix_every_line p at_start (c # cs) =
     (if at_start then p else []) @
     c # prefix_every_line p (linebreak c \<and> \<not> (c = 0x0D \<and> starts_with_LF cs)) cs"

section \<open>The lines of a message\<close>

text \<open>
  Joining the prefixed lines of \<^verbatim>\<open>splitlines(True)\<close> gives what \<open>prefix_every_line\<close>
  describes. A line is a stretch without boundary followed by one boundary, or by the
  end of the message; the proof follows the loop, one line at a time.
\<close>

lemma starts_with_LF_case:
  "starts_with_LF r = (case r of [] \<Rightarrow> False | c' # _ \<Rightarrow> c' = 0x0A)"
  by (cases r) simp_all

lemma prefix_every_line_body:
  assumes "\<forall>c \<in> set body. \<not> linebreak c"
  shows "prefix_every_line p b (body @ rest) =
           (if body = [] then prefix_every_line p b rest
            else (if b then p else []) @ body @ prefix_every_line p False rest)"
  using assms
proof (induction body arbitrary: b)
  case Nil
  then show ?case by simp
next
  case (Cons c cs)
  then have IH: "prefix_every_line p False (cs @ rest) =
           (if cs = [] then prefix_every_line p False rest
            else cs @ prefix_every_line p False rest)"
    by simp
  from Cons.prems have "\<not> linebreak c" by simp
  then show ?case using IH by simp
qed

lemma splitlines_Cons_unfold:
  "splitlines k (x # xs) =
     (case dropWhile (\<lambda>c. \<not> linebreak c) (x # xs) of
           [] \<Rightarrow> [takeWhile (\<lambda>c. \<not> linebreak c) (x # xs)]
         | c # r \<Rightarrow>
             (if c = 0x0D \<and> starts_with_LF r
              then (if k then takeWhile (\<lambda>c. \<not> linebreak c) (x # xs) @ [0x0D, 0x0A] else takeWhile (\<lambda>c. \<not> linebreak c) (x # xs)) # splitlines k (tl r)
              else (if k then takeWhile (\<lambda>c. \<not> linebreak c) (x # xs) @ [c] else takeWhile (\<lambda>c. \<not> linebreak c) (x # xs)) # splitlines k r))"
  by (simp only: splitlines.simps Let_def starts_with_LF_case)

lemma indent_lines_prefix:
  "concat (map (\<lambda>line. p @ line) (splitlines True s)) = prefix_every_line p True s"
proof (induction s rule: length_induct)
  case (1 s)
  show ?case
  proof (cases s)
    case Nil
    then show ?thesis by simp
  next
    case (Cons x xs)
    define body where "body = takeWhile (\<lambda>c. \<not> linebreak c) s"
    define rest where "rest = dropWhile (\<lambda>c. \<not> linebreak c) s"
    have s: "s = body @ rest" by (simp add: body_def rest_def)
    have nb: "\<forall>c \<in> set body. \<not> linebreak c"
      unfolding body_def by (auto dest: set_takeWhileD)
    have pre: "prefix_every_line p True s =
           (if body = [] then prefix_every_line p True rest
            else p @ body @ prefix_every_line p False rest)"
      using prefix_every_line_body [OF nb, of p True rest] s by simp
    show ?thesis
    proof (cases rest)
      case Nil
      with s Cons have "body \<noteq> []" by auto
      moreover have "splitlines True s = [body]"
        using Nil unfolding Cons splitlines_Cons_unfold body_def rest_def by simp
      ultimately show ?thesis using pre Nil by simp
    next
      case rc: (Cons c r)
      have lb: "linebreak c"
        using hd_dropWhile [of "\<lambda>c. \<not> linebreak c" s] rc unfolding rest_def by auto
      have len: "length r < length s" using s rc by simp
      show ?thesis
      proof (cases "c = 0x0D \<and> starts_with_LF r")
        case True
        then obtain r' where r: "r = 0x0A # r'" by (cases r) auto
        have "length r' < length s" using len r by simp
        with 1 have IH: "concat (map (\<lambda>line. p @ line) (splitlines True r')) = prefix_every_line p True r'"
          by blast
        have sl: "splitlines True s = (body @ [0x0D, 0x0A]) # splitlines True r'"
          using rc True r unfolding Cons splitlines_Cons_unfold body_def rest_def by simp
        have "linebreak 0x0A" by (simp add: linebreak_def)
        then show ?thesis using pre rc True r IH sl lb by simp
      next
        case False
        from 1 len have IH: "concat (map (\<lambda>line. p @ line) (splitlines True r)) = prefix_every_line p True r"
          by blast
        have sl: "splitlines True s = (body @ [c]) # splitlines True r"
          using rc False unfolding Cons splitlines_Cons_unfold body_def rest_def by simp
        show ?thesis using pre rc False IH sl lb by auto
      qed
    qed
  qed
qed

lemma indent_prefix_every_line:
  "indent data amount string = prefix_every_line (str_mul string amount) True data"
  unfolding indent_def by (rule indent_lines_prefix)

lemma prefix_every_line_empty: "prefix_every_line [] b s = s"
  by (induction s arbitrary: b) simp_all

lemma concat_splitlines: "concat (splitlines True s) = s"
  using indent_lines_prefix [of "[]" s] by (simp add: prefix_every_line_empty)

text \<open>
  The counter under repeated \<^verbatim>\<open>indent()\<close> and \<^verbatim>\<open>outdent()\<close>, and the message at a
  given depth.
\<close>

lemma str_mul_int: "str_mul s (int d) = concat (replicate d s)"
  by (simp add: str_mul_def)

lemma funpow_indent_level:
  "indent_level ((IndentingLoggerAdapter_indent ^^ k) self) = indent_level self + int k"
  by (induction k) (simp_all add: IndentingLoggerAdapter_indent_def)

lemma funpow_outdent_level:
  "0 \<le> indent_level self \<Longrightarrow>
   indent_level ((IndentingLoggerAdapter_outdent ^^ j) self) = max 0 (indent_level self - int j)"
  by (induction j) (simp_all add: IndentingLoggerAdapter_outdent_def)

lemma indent_outdent_level:
  "indent_level ((IndentingLoggerAdapter_outdent ^^ j)
     ((IndentingLoggerAdapter_indent ^^ n) (IndentingLoggerAdapter_init log))) = int (n - j)"
proof -
  have "indent_level ((IndentingLoggerAdapter_indent ^^ n) (IndentingLoggerAdapter_init log)) = int n"
    by (simp add: funpow_indent_level IndentingLoggerAdapter_init_def)
  then show ?thesis by (simp add: funpow_outdent_level)
qed

lemma process_at_level:
  "indent_level self = int d \<Longrightarrow>
   IndentingLoggerAdapter_process self msg kwargs =
     (prefix_every_line (concat (replicate d indent_default_string)) True msg, kwargs)"
  by (simp add: IndentingLoggerAdapter_process_def indent_prefix_every_line str_mul_int)

lemma adapter_step_nonneg:
  "0 \<le> indent_level self \<Longrightarrow> 0 \<le> indent_level (adapter_step self call)"
  by (cases call) (simp_all add: IndentingLoggerAdapter_indent_def IndentingLoggerAdapter_outdent_def)

lemma adapter_run_nonneg:
  "0 \<le> indent_level self \<Longrightarrow> 0 \<le> indent_level (adapter_run self calls)"
  unfolding adapter_run_def
  by (induction calls arbitrary: self) (simp_all add: adapter_step_nonneg)

section \<open>The colouring handler\<close>

text \<open>
  Claim C1. With the colour flag on, and the base class's \<^verbatim>\<open>format\<close> returning a
  string for the record, \<^verbatim>\<open>format(record)\<close> returns the code that \<^verbatim>\<open>COLOURS\<close> has for
  the record's level number (the empty string when the level is no key of it), then the
  base string, then \<^verbatim>\<open>COLOUR_END\<close>. The reset code is appended whether the level is
  mapped or not.
\<close>

theorem format_coloured:
  assumes "colour self" and "base_format rcd = Inr rendered"
  shows "PrettyStreamHandler_format base_format self rcd =
           Inr (dict_get COLOURS (levelno rcd) [] @ rendered @ COLOUR_END)
         \<and> (COLOURS (levelno rcd) = Some code \<longrightarrow>
              PrettyStreamHandler_format base_format self rcd = Inr (code @ rendered @ COLOUR_END))
         \<and> (COLOURS (levelno rcd) = None \<longrightarrow>
              PrettyStreamHandler_format base_format self rcd = Inr (rendered @ COLOUR_END))"
  using assms by (simp add: PrettyStreamHandler_format_def dict_get_def)

text \<open>
  The scenario of the specification: an ERROR record rendered as \<^verbatim>\<open>[ERROR] boom\<close>
  comes out between the red code and the reset code; an INFO record, which has no
  colour, comes out followed by the reset code alone.
\<close>

theorem format_coloured_witness:
  "PrettyStreamHandler_format (\<lambda>r. Inr (str_of ''[ERROR] boom''))
     \<lparr>stream = \<lparr>isatty = Returns False\<rparr>, colour = True\<rparr> \<lparr>levelno = logging_ERROR\<rparr> =
     Inr (27 # str_of ''[31m[ERROR] boom'' @ 27 # str_of ''[0m'')
   \<and> PrettyStreamHandler_format (\<lambda>r. Inr (str_of ''[INFO] ok''))
     \<lparr>stream = \<lparr>isatty = Returns False\<rparr>, colour = True\<rparr> \<lparr>levelno = logging_INFO\<rparr> =
     Inr (str_of ''[INFO] ok'' @ 27 # str_of ''[0m'')"
  using format_coloured [where self = "\<lparr>stream = \<lparr>isatty = Returns False\<rparr>, colour = True\<rparr>"
          and base_format = "\<lambda>r. Inr (str_of ''[ERROR] boom'')"
          and rcd = "\<lparr>levelno = logging_ERROR\<rparr>" and rendered = "str_of ''[ERROR] boom''"
          and code = "27 # str_of ''[31m''"]
        format_coloured [where self = "\<lparr>stream = \<lparr>isatty = Returns False\<rparr>, colour = True\<rparr>"
          and base_format = "\<lambda>r. Inr (str_of ''[INFO] ok'')"
          and rcd = "\<lparr>levelno = logging_INFO\<rparr>" and rendered = "str_of ''[INFO] ok''"
          and code = "[]"]
  by (simp add: str_of_def COLOUR_END_def COLOURS_def dict_get_def logging_DEBUG_def
      logging_INFO_def logging_WARNING_def logging_ERROR_def logging_CRITICAL_def)

text \<open>
  Claim C3. With the colour flag off, \<^verbatim>\<open>format(record)\<close> is exactly what the base
  class's \<^verbatim>\<open>format\<close> gives (its string, or its exception), whatever the level. The
  flag is off when the handler was constructed with the override \<^verbatim>\<open>colour=False\<close>, and
  when it was constructed without override on a stream whose \<^verbatim>\<open>isatty()\<close> is false.
\<close>

theorem format_uncoloured:
  assumes "\<not> colour self
           \<or> PrettyStreamHandler_init sys_stderr stream_arg (Some False) = Inr self
           \<or> (isatty (StreamHandler_stream sys_stderr stream_arg) = Returns False
               \<and> PrettyStreamHandler_init sys_stderr stream_arg None = Inr self)"
  shows "PrettyStreamHandler_format base_format self rcd = base_format rcd"
proof -
  from assms have "\<not> colour self"
    by (auto simp: PrettyStreamHandler_init_def)
  then show ?thesis
    by (simp add: PrettyStreamHandler_format_def split: sum.splits)
qed

theorem format_uncoloured_witness:
  "PrettyStreamHandler_init \<lparr>isatty = Returns True\<rparr> None (Some False) =
     Inr \<lparr>stream = \<lparr>isatty = Returns True\<rparr>, colour = False\<rparr>
   \<and> PrettyStreamHandler_format (\<lambda>r. Inr (str_of ''[ERROR] boom''))
     \<lparr>stream = \<lparr>isatty = Returns True\<rparr>, colour = False\<rparr> \<lparr>levelno = logging_ERROR\<rparr> =
     Inr (str_of ''[ERROR] boom'')
   \<and> PrettyStreamHandler_init \<lparr>isatty = Returns True\<rparr> (Some \<lparr>isatty = Returns False\<rparr>) None =
     Inr \<lparr>stream = \<lparr>isatty = Returns False\<rparr>, colour = False\<rparr>
   \<and> PrettyStreamHandler_format (\<lambda>r. Inr (str_of ''[ERROR] boom''))
     \<lparr>stream = \<lparr>isatty = Returns False\<rparr>, colour = False\<rparr> \<lparr>levelno = logging_ERROR\<rparr> =
     Inr (str_of ''[ERROR] boom'')
   \<and> PrettyStreamHandler_format (\<lambda>r. Inl (Propagated ''TypeError''))
     \<lparr>stream = \<lparr>isatty = Returns False\<rparr>, colour = False\<rparr> \<lparr>levelno = logging_DEBUG\<rparr> =
     Inl (Propagated ''TypeError'')"
  using format_uncoloured [where self = "\<lparr>stream = \<lparr>isatty = Returns True\<rparr>, colour = False\<rparr>"
          and sys_stderr = "\<lparr>isatty = Returns True\<rparr>" and stream_arg = None
          and base_format = "\<lambda>r. Inr (str_of ''[ERROR] boom'')"
          and rcd = "\<lparr>levelno = logging_ERROR\<rparr>"]
        format_uncoloured [where self = "\<lparr>stream = \<lparr>isatty = Returns False\<rparr>, colour = False\<rparr>"
          and sys_stderr = "\<lparr>isatty = Returns True\<rparr>"
          and stream_arg = "Some \<lparr>isatty = Returns False\<rparr>"
          and base_format = "\<lambda>r. Inr (str_of ''[ERROR] boom'')"
          and rcd = "\<lparr>levelno = logging_ERROR\<rparr>"]
        format_uncoloured [where self = "\<lparr>stream = \<lparr>isatty = Returns False\<rparr>, colour = False\<rparr>"
          and sys_stderr = "\<lparr>isatty = Returns True\<rparr>"
          and stream_arg = "Some \<lparr>isatty = Returns False\<rparr>"
          and base_format = "\<lambda>r. Inl (Propagated ''TypeError'')"
          and rcd = "\<lparr>levelno = logging_DEBUG\<rparr>"]
  by (simp add: PrettyStreamHandler_init_def StreamHandler_stream_def)

text \<open>
  Claim C4. Constructed without a colour override, the handler asks the stream it
  writes to (the given one, or \<^verbatim>\<open>sys.stderr\<close>) whether it is a terminal, and its colour
  flag is the answer: on for a terminal, off for any other stream.
\<close>

theorem init_auto_colour:
  assumes "isatty (StreamHandler_stream sys_stderr stream_arg) = Returns b"
  shows "PrettyStreamHandler_init sys_stderr stream_arg None =
           Inr \<lparr>stream = StreamHandler_stream sys_stderr stream_arg, colour = b\<rparr>"
  using assms by (simp add: PrettyStreamHandler_init_def)

theorem init_auto_colour_witness:
  "PrettyStreamHandler_init \<lparr>isatty = Returns True\<rparr> None None =
     Inr \<lparr>stream = \<lparr>isatty = Returns True\<rparr>, colour = True\<rparr>
   \<and> PrettyStreamHandler_init \<lparr>isatty = Returns True\<rparr> (Some \<lparr>isatty = Returns False\<rparr>) None =
     Inr \<lparr>stream = \<lparr>isatty = Returns False\<rparr>, colour = False\<rparr>"
proof -
  have t: "isatty (StreamHandler_stream \<lparr>isatty = Returns True\<rparr> None) = Returns True"
    by (simp add: StreamHandler_stream_def)
  have f: "isatty (StreamHandler_stream \<lparr>isatty = Returns True\<rparr> (Some \<lparr>isatty = Returns False\<rparr>))
             = Returns False"
    by (simp add: StreamHandler_stream_def)
  show ?thesis
    using init_auto_colour [OF t] init_auto_colour [OF f]
    by (simp add: StreamHandler_stream_def)
qed

text \<open>
  Claim C5, as the code has it. Constructed without a colour override on a stream that
  has no \<^verbatim>\<open>isatty\<close> method, the constructor raises \<^verbatim>\<open>AttributeError\<close>: the method is
  looked up unguarded. On such a stream construction succeeds only with an explicit
  override, and the flag is then the override.
\<close>

theorem init_without_isatty:
  assumes "isatty (StreamHandler_stream sys_stderr stream_arg) = Missing"
  shows "PrettyStreamHandler_init sys_stderr stream_arg None = Inl AttributeError
         \<and> PrettyStreamHandler_init sys_stderr stream_arg (Some c) =
             Inr \<lparr>stream = StreamHandler_stream sys_stderr stream_arg, colour = c\<rparr>"
  using assms by (simp add: PrettyStreamHandler_init_def)

theorem init_without_isatty_witness:
  "PrettyStreamHandler_init \<lparr>isatty = Returns True\<rparr> (Some \<lparr>isatty = Missing\<rparr>) None =
     Inl AttributeError
   \<and> PrettyStreamHandler_init \<lparr>isatty = Returns True\<rparr> (Some \<lparr>isatty = Missing\<rparr>) (Some False) =
     Inr \<lparr>stream = \<lparr>isatty = Missing\<rparr>, colour = False\<rparr>"
proof -
  have m: "isatty (StreamHandler_stream \<lparr>isatty = Returns True\<rparr> (Some \<lparr>isatty = Missing\<rparr>)) = Missing"
    by (simp add: StreamHandler_stream_def)
  show ?thesis
    using init_without_isatty [OF m, where c = False] by (simp add: StreamHandler_stream_def)
qed

text \<open>
  The claim as the specification words it (construction succeeds, with colour off) fails
  on a stream without \<^verbatim>\<open>isatty\<close>: no handler is returned.
\<close>

theorem init_auto_without_isatty_counterexample:
  "PrettyStreamHandler_init \<lparr>isatty = Returns True\<rparr> (Some \<lparr>isatty = Missing\<rparr>) None =
     Inl AttributeError
   \<and> PrettyStreamHandler_init \<lparr>isatty = Returns True\<rparr> (Some \<lparr>isatty = Missing\<rparr>) None \<noteq>
     Inr \<lparr>stream = \<lparr>isatty = Missing\<rparr>, colour = False\<rparr>"
  by (simp add: PrettyStreamHandler_init_def StreamHandler_stream_def)

section \<open>The indenting adapter\<close>

text \<open>
  Claim C2. At depth \<open>d\<close>, \<^verbatim>\<open>process(msg, kwargs)\<close> returns the message with \<open>d\<close>
  copies of the two-space unit in front of every line, and \<^verbatim>\<open>kwargs\<close>. The result is
  the one \<open>prefix_every_line\<close> describes; line by line, it is the prefix followed by
  the line, for each line of \<^verbatim>\<open>splitlines\<close> in order, and the lines with their
  boundaries make up the message, so every line break is kept.
\<close>

theorem process_prefixes_every_line:
  "IndentingLoggerAdapter_process (self\<lparr>indent_level := int d\<rparr>) msg kwargs =
     (prefix_every_line (concat (replicate d indent_default_string)) True msg, kwargs)
   \<and> fst (IndentingLoggerAdapter_process (self\<lparr>indent_level := int d\<rparr>) msg kwargs) =
       concat (map (\<lambda>line. concat (replicate d indent_default_string) @ line) (splitlines True msg))
   \<and> concat (splitlines True msg) = msg"
  by (simp add: process_at_level concat_splitlines indent_lines_prefix)

text \<open>
  The scenario of the specification: the two lines \<^verbatim>\<open>line1\<close> and \<^verbatim>\<open>line2\<close>, separated
  by LF, at depth 1 and at depth 0.
\<close>

theorem process_prefixes_every_line_witness:
  "IndentingLoggerAdapter_process \<lparr>logger = (), indent_level = 1\<rparr>
     (str_of ''line1'' @ 10 # str_of ''line2'') () =
     (str_of ''  line1'' @ 10 # str_of ''  line2'', ())
   \<and> IndentingLoggerAdapter_process \<lparr>logger = (), indent_level = 0\<rparr>
     (str_of ''line1'' @ 10 # str_of ''line2'') () =
     (str_of ''line1'' @ 10 # str_of ''line2'', ())"
  using process_prefixes_every_line [where self = "\<lparr>logger = (), indent_level = 0\<rparr>" and d = 1
          and msg = "str_of ''line1'' @ 10 # str_of ''line2''" and kwargs = "()"]
        process_prefixes_every_line [where self = "\<lparr>logger = (), indent_level = 0\<rparr>" and d = 0
          and msg = "str_of ''line1'' @ 10 # str_of ''line2''" and kwargs = "()"]
  by (simp add: str_of_def indent_default_string_def linebreak_def)

text \<open>
  Claim C6. \<^verbatim>\<open>outdent()\<close> at depth 0 leaves the adapter as it is; at a depth above 0 it
  lowers the depth by exactly 1. It never raises and never touches the wrapped logger.
\<close>

theorem outdent_clamped:
  "(indent_level self = 0 \<longrightarrow> IndentingLoggerAdapter_outdent self = self)
   \<and> (0 < indent_level self \<longrightarrow>
        indent_level (IndentingLoggerAdapter_outdent self) = indent_level self - 1)
   \<and> logger (IndentingLoggerAdapter_outdent self) = logger self"
  by (simp add: IndentingLoggerAdapter_outdent_def)

theorem outdent_clamped_witness:
  "IndentingLoggerAdapter_outdent \<lparr>logger = (), indent_level = 0\<rparr> =
     \<lparr>logger = (), indent_level = 0\<rparr>
   \<and> indent_level (IndentingLoggerAdapter_outdent \<lparr>logger = (), indent_level = 3\<rparr>) = 2"
  using outdent_clamped [of "\<lparr>logger = (), indent_level = 0\<rparr>"]
        outdent_clamped [of "\<lparr>logger = (), indent_level = 3\<rparr>"]
  by simp

text \<open>
  Claim C7. From a new adapter, \<open>n\<close> calls of \<^verbatim>\<open>indent()\<close> and then \<open>n\<close> calls of
  \<^verbatim>\<open>outdent()\<close> bring the depth back to 0. On the way up the depth after \<open>k\<close> calls is
  \<open>k\<close>; on the way down the depth after \<open>j\<close> calls is \<open>n - j\<close> (0 once \<open>j\<close> is past
  \<open>n\<close>); and at each of these points a processed message has that many copies of the
  unit in front of every line.
\<close>

theorem indent_outdent_balanced:
  "indent_level ((IndentingLoggerAdapter_outdent ^^ n)
     ((IndentingLoggerAdapter_indent ^^ n) (IndentingLoggerAdapter_init log))) = 0
   \<and> indent_level ((IndentingLoggerAdapter_indent ^^ k) (IndentingLoggerAdapter_init log)) = int k
   \<and> IndentingLoggerAdapter_process
       ((IndentingLoggerAdapter_indent ^^ k) (IndentingLoggerAdapter_init log)) msg kwargs =
       (prefix_every_line (concat (replicate k indent_default_string)) True msg, kwargs)
   \<and> indent_level ((IndentingLoggerAdapter_outdent ^^ j)
       ((IndentingLoggerAdapter_indent ^^ n) (IndentingLoggerAdapter_init log))) = int (n - j)
   \<and> IndentingLoggerAdapter_process
       ((IndentingLoggerAdapter_outdent ^^ j)
         ((IndentingLoggerAdapter_indent ^^ n) (IndentingLoggerAdapter_init log))) msg kwargs =
       (prefix_every_line (concat (replicate (n - j) indent_default_string)) True msg, kwargs)"
proof -
  have k: "indent_level ((IndentingLoggerAdapter_indent ^^ k) (IndentingLoggerAdapter_init log)) = int k"
    by (simp add: funpow_indent_level IndentingLoggerAdapter_init_def)
  have "indent_level ((IndentingLoggerAdapter_outdent ^^ n)
     ((IndentingLoggerAdapter_indent ^^ n) (IndentingLoggerAdapter_init log))) = 0"
    using indent_outdent_level [of n n log] by simp
  then show ?thesis
    using k process_at_level [OF k, of msg kwargs] indent_outdent_level [of j n log]
      process_at_level [OF indent_outdent_level [of j n log], of msg kwargs]
    by simp
qed

theorem indent_outdent_balanced_witness:
  "indent_level ((IndentingLoggerAdapter_outdent ^^ 2)
     ((IndentingLoggerAdapter_indent ^^ 2) (IndentingLoggerAdapter_init ()))) = 0
   \<and> IndentingLoggerAdapter_process
       ((IndentingLoggerAdapter_outdent ^^ 1)
         ((IndentingLoggerAdapter_indent ^^ 2) (IndentingLoggerAdapter_init ())))
       (str_of ''a'' @ 10 # str_of ''b'') () =
       (str_of ''  a'' @ 10 # str_of ''  b'', ())"
  using indent_outdent_balanced [where n = 2 and j = 1 and k = 1 and log = "()"
          and msg = "str_of ''a'' @ 10 # str_of ''b''" and kwargs = "()"]
  by (simp add: str_of_def indent_default_string_def linebreak_def)

text \<open>
  Claim C8. \<^verbatim>\<open>process\<close> returns the \<^verbatim>\<open>kwargs\<close> it was given. The logging method that
  calls it passes on the level it was called with and those \<^verbatim>\<open>kwargs\<close>; of the call
  that reaches the wrapped logger, only the message is the work of \<^verbatim>\<open>process\<close>.
\<close>

theorem process_keeps_kwargs:
  "snd (IndentingLoggerAdapter_process self msg kwargs) = kwargs
   \<and> call_level (IndentingLoggerAdapter_log self level msg kwargs) = level
   \<and> call_kwargs (IndentingLoggerAdapter_log self level msg kwargs) = kwargs
   \<and> call_msg (IndentingLoggerAdapter_log self level msg kwargs) =
       fst (IndentingLoggerAdapter_process self msg kwargs)"
  by (simp add: IndentingLoggerAdapter_process_def IndentingLoggerAdapter_log_def)

theorem process_keeps_kwargs_witness:
  "snd (IndentingLoggerAdapter_process \<lparr>logger = (), indent_level = 2\<rparr> (str_of ''hi'') (Some True))
     = Some True
   \<and> call_level (IndentingLoggerAdapter_log \<lparr>logger = (), indent_level = 2\<rparr> logging_WARNING
        (str_of ''hi'') (Some True)) = logging_WARNING"
  using process_keeps_kwargs [where self = "\<lparr>logger = (), indent_level = 2\<rparr>"
          and msg = "str_of ''hi''" and kwargs = "Some True" and level = logging_WARNING]
  by simp

text \<open>
  Claim C9. The depth is 0 after construction; each call of \<^verbatim>\<open>indent\<close>, \<^verbatim>\<open>outdent\<close> or
  \<^verbatim>\<open>process\<close> on an adapter of depth at least 0 leaves a depth of at least 0; so after
  any sequence of calls on a new adapter the depth is at least 0.
\<close>

theorem indent_level_nonneg:
  "indent_level (IndentingLoggerAdapter_init log) = 0
   \<and> (0 \<le> indent_level self \<longrightarrow> 0 \<le> indent_level (adapter_step self call))
   \<and> 0 \<le> indent_level (adapter_run (IndentingLoggerAdapter_init log') calls)"
  using adapter_run_nonneg [of "IndentingLoggerAdapter_init log'" calls]
  by (simp add: adapter_step_nonneg IndentingLoggerAdapter_init_def)

theorem indent_level_nonneg_witness:
  "0 \<le> indent_level (adapter_step \<lparr>logger = (), indent_level = 0\<rparr> (Outdent :: unit adapter_call))
   \<and> indent_level (adapter_run (IndentingLoggerAdapter_init ())
        (Outdent # Indent # Process (str_of ''x'') () # Outdent # Outdent # Indent # [])) = 1"
proof -
  have z: "0 \<le> indent_level \<lparr>logger = (), indent_level = 0\<rparr>" by simp
  show ?thesis
    using indent_level_nonneg [where self = "\<lparr>logger = (), indent_level = 0\<rparr>"
            and call = "Outdent :: unit adapter_call" and log = "()" and log' = "()"
            and calls = "Outdent # Indent # Process (str_of ''x'') () # Outdent # Outdent # Indent # []"]
          z
    by (simp add: adapter_run_def IndentingLoggerAdapter_init_def IndentingLoggerAdapter_indent_def
        IndentingLoggerAdapter_outdent_def)
qed

text \<open>
  Claim C10. At every depth, \<^verbatim>\<open>process\<close> of the empty message returns the empty
  message: it has no line, so no prefix is written.
\<close>

theorem process_empty_message:
  "IndentingLoggerAdapter_process self [] kwargs = ([], kwargs)"
  by (simp add: IndentingLoggerAdapter_process_def indent_def)

theorem process_empty_message_witness:
  "IndentingLoggerAdapter_process \<lparr>logger = (), indent_level = 5\<rparr> (str_of []) () = (str_of [], ())"
  using process_empty_message [where self = "\<lparr>logger = (), indent_level = 5\<rparr>" and kwargs = "()"]
  by (simp add: str_of_def)

end
